theory Spec2Isabelle
  imports Main
begin

section \<open>Data model of \<^verbatim>\<open>src/App.vue\<close>\<close>

text \<open>
  The four flags of \<^verbatim>\<open>interface ConversionOptions\<close>. The source keeps them in the
  module-level reactive object \<^verbatim>\<open>options\<close>, which the conversion only reads; the model
  passes the record to every function that reads it.
\<close>

record ConversionOptions =
  detectEnums :: bool
  camelCase :: bool
  markOptional :: bool
  strictNullChecks :: bool

text \<open>
  \<^verbatim>\<open>type JsonValue\<close>. The payload of a number or a boolean is never inspected by the
  conversion, so a number carries an integer here and a fraction would behave the same.
  An object carries its entries in the order in which
  \<^verbatim>\<open>Object.entries\<close> enumerates them. Strings are lists of 8-bit characters: the model
  covers ASCII text (JavaScript's \<^verbatim>\<open>toUpperCase\<close> and \<^verbatim>\<open>trim\<close> differ from it beyond ASCII only).
\<close>

datatype JsonValue =
    JNull
  | JBoolean bool
  | JNumber int
  | JString string
  | JArray "JsonValue list"
  | JObject "(string \<times> JsonValue) list"

text \<open>\<^verbatim>\<open>interface InterfaceProperties { [key: string]: string }\<close>, in property order.\<close>

type_synonym InterfaceProperties = "(string \<times> string) list"

text \<open>
  The two registries \<^verbatim>\<open>interfaces\<close> and \<^verbatim>\<open>enumTypes\<close> that
  \<^verbatim>\<open>convertJsonToTypeScript\<close> creates empty and \<^verbatim>\<open>generateTypeDefinition\<close> mutates:
  JavaScript \<^verbatim>\<open>Map\<close>s, which iterate in insertion order, as association lists.
\<close>

record registries =
  interfaces :: "(string \<times> InterfaceProperties) list"
  enumTypes :: "(string \<times> string list) list"

definition empty_registries :: registries where
  "empty_registries = \<lparr>interfaces = [], enumTypes = []\<rparr>"

section \<open>JavaScript containers\<close>

text \<open>
  \<^verbatim>\<open>Map.prototype.set\<close>: a key already present keeps its position and gets the new
  value; a new key is appended.
\<close>

fun js_map_set :: "'k \<Rightarrow> 'v \<Rightarrow> ('k \<times> 'v) list \<Rightarrow> ('k \<times> 'v) list" where
  "js_map_set k v [] = [(k, v)]"
| "js_map_set k v ((k', v') # m) =
     (if k' = k then (k, v) # m else (k', v') # js_map_set k v m)"

text \<open>
  \<^verbatim>\<open>properties[key] = propType\<close> on the plain object \<^verbatim>\<open>properties = {}\<close>, with
  \<^verbatim>\<open>propType\<close> a string. The key \<^verbatim>\<open>__proto__\<close> reaches the accessor inherited from
  \<^verbatim>\<open>Object.prototype\<close>, whose setter ignores a string and creates no property.
\<close>

definition obj_set :: "string \<Rightarrow> string \<Rightarrow> InterfaceProperties \<Rightarrow> InterfaceProperties" where
  "obj_set key propType properties =
     (if key = ''__proto__'' then properties else js_map_set key propType properties)"

text \<open>\<^verbatim>\<open>new Set(xs)\<close>, spread back to an array: \<^verbatim>\<open>add\<close> keeps the first occurrence.\<close>

definition set_add :: "'a \<Rightarrow> 'a list \<Rightarrow> 'a list" where
  "set_add x s = (if x \<in> set s then s else s @ [x])"

definition new_Set :: "'a list \<Rightarrow> 'a list" where
  "new_Set xs = foldl (\<lambda>s x. set_add x s) [] xs"

text \<open>\<^verbatim>\<open>Array.prototype.join\<close> on an array of strings.\<close>

fun join :: "string \<Rightarrow> string list \<Rightarrow> string" where
  "join sep [] = []"
| "join sep [x] = x"
| "join sep (x # y # ys) = x @ sep @ join sep (y # ys)"

section \<open>Characters and the string helpers\<close>

definition in_range :: "char \<Rightarrow> char \<Rightarrow> char \<Rightarrow> bool" where
  "in_range lo hi c \<longleftrightarrow> (of_char lo :: nat) \<le> of_char c \<and> (of_char c :: nat) \<le> of_char hi"

definition is_lower :: "char \<Rightarrow> bool" where
  "is_lower c \<longleftrightarrow> in_range CHR ''a'' CHR ''z'' c"

definition is_alpha :: "char \<Rightarrow> bool" where
  "is_alpha c \<longleftrightarrow> is_lower c \<or> in_range CHR ''A'' CHR ''Z'' c"

definition is_digit :: "char \<Rightarrow> bool" where
  "is_digit c \<longleftrightarrow> in_range CHR ''0'' CHR ''9'' c"

text \<open>The character class \<^verbatim>\<open>[a-zA-Z0-9_]\<close>.\<close>

definition is_word :: "char \<Rightarrow> bool" where
  "is_word c \<longleftrightarrow> is_alpha c \<or> is_digit c \<or> c = CHR ''_''"

text \<open>\<^verbatim>\<open>toUpperCase\<close> on one ASCII character.\<close>

definition toUpperCase :: "char \<Rightarrow> char" where
  "toUpperCase c = (if is_lower c then char_of (of_char c - (32 :: nat)) else c)"

text \<open>\<^verbatim>\<open>str.replace(/_([a-z])/g, (_, letter) => letter.toUpperCase())\<close>\<close>

fun toCamelCase :: "string \<Rightarrow> string" where
  "toCamelCase (c # d # cs) =
     (if c = CHR ''_'' \<and> is_lower d then toUpperCase d # toCamelCase cs
      else c # toCamelCase (d # cs))"
| "toCamelCase cs = cs"

text \<open>\<^verbatim>\<open>string.charAt(0).toUpperCase() + string.slice(1)\<close>\<close>

fun capitalizeFirstLetter :: "string \<Rightarrow> string" where
  "capitalizeFirstLetter [] = []"
| "capitalizeFirstLetter (c # cs) = toUpperCase c # cs"

text \<open>The test \<^verbatim>\<open>/^[a-zA-Z_$][a-zA-Z0-9_$]*$/\<close> of \<^verbatim>\<open>formatPropertyKey\<close>.\<close>

definition is_bare_identifier :: "string \<Rightarrow> bool" where
  "is_bare_identifier s =
     (case s of
        [] \<Rightarrow> False
      | c # cs \<Rightarrow> (is_alpha c \<or> c = CHR ''_'' \<or> c = CHR ''$'') \<and>
                 list_all (\<lambda>d. is_word d \<or> d = CHR ''$'') cs)"

definition formatPropertyKey :: "ConversionOptions \<Rightarrow> string \<Rightarrow> string" where
  "formatPropertyKey opts key =
     (let formattedKey = (if camelCase opts then toCamelCase key else key)
      in if \<not> is_bare_identifier formattedKey then [CHR 0x27] @ formattedKey @ [CHR 0x27]
         else formattedKey)"

text \<open>
  \<^verbatim>\<open>value.replace(/[^a-zA-Z0-9_]/g, "_").replace(/^[0-9]/, "_$&")\<close>, the member name of
  an enum value.
\<close>

definition enumKey :: "string \<Rightarrow> string" where
  "enumKey v =
     (let r = map (\<lambda>c. if is_word c then c else CHR ''_'') v
      in case r of [] \<Rightarrow> [] | c # cs \<Rightarrow> if is_digit c then CHR ''_'' # c # cs else c # cs)"

text \<open>\<^verbatim>\<open>String.prototype.trim\<close> for ASCII: the white space of both ends is removed.\<close>

definition is_space :: "char \<Rightarrow> bool" where
  "is_space c \<longleftrightarrow> c \<in> set [CHR 0x09, CHR 0x0A, CHR 0x0B, CHR 0x0C, CHR 0x0D, CHR 0x20]"

definition trim :: "string \<Rightarrow> string" where
  "trim s = rev (dropWhile is_space (rev (dropWhile is_space s)))"

section \<open>The walk: \<^verbatim>\<open>generateTypeDefinition\<close>\<close>

fun is_string :: "JsonValue \<Rightarrow> bool" where
  "is_string (JString s) = True"
| "is_string v = False"

text \<open>\<^verbatim>\<open>value.filter((item) => typeof item === "string") as string[]\<close>\<close>

fun string_items :: "JsonValue list \<Rightarrow> string list" where
  "string_items [] = []"
| "string_items (JString s # vs) = s # string_items vs"
| "string_items (v # vs) = string_items vs"

text \<open>
  The two \<^verbatim>\<open>return\<close>s that end the array branch: one type when the set of the
  item types has size one, a union of the set's members otherwise.
\<close>

definition sequence_type :: "string list \<Rightarrow> string" where
  "sequence_type itemTypes =
     (if length (new_Set itemTypes) = 1 then hd itemTypes @ ''[]''
      else ''('' @ join '' | '' (new_Set itemTypes) @ '')[]'')"

text \<open>
  The function returns the type expression and the registries as it leaves them, on a
  call stack with room for every nested call; the walk on a bounded stack follows below.
  \<^verbatim>\<open>array_items\<close> is the callback loop of \<^verbatim>\<open>value.map\<close>, \<^verbatim>\<open>object_entries\<close> the
  \<^verbatim>\<open>for\<close> loop over \<^verbatim>\<open>Object.entries(value)\<close> with the object \<^verbatim>\<open>properties\<close> it fills.
  The parameter \<^verbatim>\<open>path\<close> of the source is passed down and never read; it is left out.
  The last \<^verbatim>\<open>switch\<close> has a \<^verbatim>\<open>default\<close> branch that no JSON value reaches.
\<close>

fun generateTypeDefinition ::
    "ConversionOptions \<Rightarrow> JsonValue \<Rightarrow> string \<Rightarrow> registries \<Rightarrow> string \<times> registries"
  and array_items ::
    "ConversionOptions \<Rightarrow> JsonValue list \<Rightarrow> string \<Rightarrow> registries \<Rightarrow> string list \<times> registries"
  and object_entries ::
    "ConversionOptions \<Rightarrow> (string \<times> JsonValue) list \<Rightarrow> string \<Rightarrow> InterfaceProperties \<Rightarrow>
       registries \<Rightarrow> InterfaceProperties \<times> registries"
where
  "generateTypeDefinition opts JNull name rs =
     (if strictNullChecks opts then ''null'' else ''any'', rs)"
| "generateTypeDefinition opts (JArray items) name rs =
     (if items = [] then (''any[]'', rs)
      else if detectEnums opts \<and> list_all is_string items then
        (let enumName = name @ ''Enum'';
             stringItems = string_items items
         in (enumName, rs\<lparr>enumTypes := js_map_set enumName (new_Set stringItems) (enumTypes rs)\<rparr>))
      else
        (case array_items opts items (name @ ''Item'') rs of
           (itemTypes, rs') \<Rightarrow> (sequence_type itemTypes, rs')))"
| "generateTypeDefinition opts (JObject entries) name rs =
     (let interfaceName = filter is_word name
      in case object_entries opts entries interfaceName [] rs of
           (properties, rs') \<Rightarrow>
             (interfaceName,
              rs'\<lparr>interfaces := js_map_set interfaceName properties (interfaces rs')\<rparr>))"
| "generateTypeDefinition opts (JString s) name rs = (''string'', rs)"
| "generateTypeDefinition opts (JNumber n) name rs = (''number'', rs)"
| "generateTypeDefinition opts (JBoolean b) name rs = (''boolean'', rs)"
| "array_items opts [] name rs = ([], rs)"
| "array_items opts (item # items) name rs =
     (case generateTypeDefinition opts item name rs of
        (itemType, rs1) \<Rightarrow>
          (case array_items opts items name rs1 of
             (itemTypes, rs2) \<Rightarrow> (itemType # itemTypes, rs2)))"
| "object_entries opts [] interfaceName properties rs = (properties, rs)"
| "object_entries opts ((key, val) # entries) interfaceName properties rs =
     (let propName = (if camelCase opts then toCamelCase key else key)
      in case generateTypeDefinition opts val
                (interfaceName @ capitalizeFirstLetter propName) rs of
           (propType, rs1) \<Rightarrow>
             object_entries opts entries interfaceName (obj_set key propType properties) rs1)"

section \<open>Rendering: \<^verbatim>\<open>convertJsonToTypeScript\<close>\<close>

text \<open>
  The \<^verbatim>\<open>forEach\<close> over the values of one enum, with its index and the length of the
  array: every line but the last ends in a comma.
\<close>

fun enum_lines :: "nat \<Rightarrow> nat \<Rightarrow> string list \<Rightarrow> string" where
  "enum_lines len index [] = []"
| "enum_lines len index (v # vs) =
     (''  '' @ enumKey v @ '' = '' @ [CHR 0x22] @ v @ [CHR 0x22] @
        (if int index < int len - 1 then '','' else []) @ [CHR 0x0A])
     @ enum_lines len (Suc index) vs"

definition render_enum :: "string \<times> string list \<Rightarrow> string" where
  "render_enum e =
     (case e of (enumName, enumValues) \<Rightarrow>
        ''enum '' @ enumName @ '' {'' @ [CHR 0x0A]
        @ enum_lines (length enumValues) 0 enumValues
        @ ''}'' @ [CHR 0x0A, CHR 0x0A])"

definition property_line :: "ConversionOptions \<Rightarrow> string \<times> string \<Rightarrow> string" where
  "property_line opts p =
     (case p of (key, type) \<Rightarrow>
        (let formattedKey = formatPropertyKey opts key;
             optional = (if markOptional opts then ''?'' else [])
         in ''  '' @ formattedKey @ optional @ '': '' @ type @ '';'' @ [CHR 0x0A]))"

definition render_interface :: "ConversionOptions \<Rightarrow> string \<times> InterfaceProperties \<Rightarrow> string" where
  "render_interface opts i =
     (case i of (name, properties) \<Rightarrow>
        ''interface '' @ name @ '' {'' @ [CHR 0x0A]
        @ concat (map (property_line opts) properties)
        @ ''}'' @ [CHR 0x0A, CHR 0x0A])"

definition render_output :: "ConversionOptions \<Rightarrow> registries \<Rightarrow> string" where
  "render_output opts rs =
     (if detectEnums opts then concat (map render_enum (enumTypes rs)) else [])
     @ concat (map (render_interface opts) (interfaces rs))"

definition convertJsonToTypeScript :: "ConversionOptions \<Rightarrow> JsonValue \<Rightarrow> string \<Rightarrow> string" where
  "convertJsonToTypeScript opts json rootName =
     (case generateTypeDefinition opts json rootName empty_registries of
        (rootType, rs) \<Rightarrow> trim (render_output opts rs))"

section \<open>The registrations of a walk\<close>

text \<open>
  The name that the loop over the entries of an object hands to the walk of one property
  value: \<^verbatim>\<open>`${interfaceName}${capitalizeFirstLetter(propName)}`\<close>.
\<close>

definition child_name :: "ConversionOptions \<Rightarrow> string \<Rightarrow> string \<Rightarrow> string" where
  "child_name opts interfaceName key =
     interfaceName @ capitalizeFirstLetter (if camelCase opts then toCamelCase key else key)"

text \<open>
  A call of \<^verbatim>\<open>interfaces.set\<close> or of \<^verbatim>\<open>enumTypes.set\<close>, and its effect on the
  registries.
\<close>

datatype registration =
    SetInterface string InterfaceProperties
  | SetEnum string "string list"

fun apply_registration :: "registries \<Rightarrow> registration \<Rightarrow> registries" where
  "apply_registration rs (SetInterface name properties) =
     rs\<lparr>interfaces := js_map_set name properties (interfaces rs)\<rparr>"
| "apply_registration rs (SetEnum name vals) =
     rs\<lparr>enumTypes := js_map_set name vals (enumTypes rs)\<rparr>"

fun interface_writes :: "registration list \<Rightarrow> (string \<times> InterfaceProperties) list" where
  "interface_writes [] = []"
| "interface_writes (SetInterface name properties # ws) = (name, properties) # interface_writes ws"
| "interface_writes (SetEnum name vals # ws) = interface_writes ws"

fun enum_writes :: "registration list \<Rightarrow> (string \<times> string list) list" where
  "enum_writes [] = []"
| "enum_writes (SetEnum name vals # ws) = (name, vals) # enum_writes ws"
| "enum_writes (SetInterface name properties # ws) = enum_writes ws"

text \<open>
  The calls of \<^verbatim>\<open>set\<close> that \<^verbatim>\<open>generateTypeDefinition\<close> makes on a value, in the order in
  which it makes them. An enum is set when its array is reached. An object is set by the
  statement after the loop over its entries, hence after every call made for the values
  nested in it.
\<close>

fun registrations :: "ConversionOptions \<Rightarrow> JsonValue \<Rightarrow> string \<Rightarrow> registration list"
  and item_registrations :: "ConversionOptions \<Rightarrow> JsonValue list \<Rightarrow> string \<Rightarrow> registration list"
  and entry_registrations ::
    "ConversionOptions \<Rightarrow> (string \<times> JsonValue) list \<Rightarrow> string \<Rightarrow> registration list"
where
  "registrations opts JNull name = []"
| "registrations opts (JArray items) name =
     (if items = [] then []
      else if detectEnums opts \<and> list_all is_string items then
        [SetEnum (name @ ''Enum'') (new_Set (string_items items))]
      else item_registrations opts items (name @ ''Item''))"
| "registrations opts (JObject entries) name =
     entry_registrations opts entries (filter is_word name)
     @ [SetInterface (filter is_word name)
          (fst (object_entries opts entries (filter is_word name) [] empty_registries))]"
| "registrations opts (JString s) name = []"
| "registrations opts (JNumber n) name = []"
| "registrations opts (JBoolean b) name = []"
| "item_registrations opts [] name = []"
| "item_registrations opts (item # items) name =
     registrations opts item name @ item_registrations opts items name"
| "entry_registrations opts [] interfaceName = []"
| "entry_registrations opts ((key, val) # entries) interfaceName =
     registrations opts val (child_name opts interfaceName key)
     @ entry_registrations opts entries interfaceName"

text \<open>
  Following the words of the specification, not the source: the object nodes in the order
  in which the walk discovers them, each with its record name and its properties. The
  walk reaches a node before the nodes nested in it, and the entries of an object and
  the items of an array from first to last.
\<close>

fun spec_discovered_records ::
    "ConversionOptions \<Rightarrow> JsonValue \<Rightarrow> string \<Rightarrow> (string \<times> InterfaceProperties) list"
  and spec_discovered_in_items ::
    "ConversionOptions \<Rightarrow> JsonValue list \<Rightarrow> string \<Rightarrow> (string \<times> InterfaceProperties) list"
  and spec_discovered_in_entries ::
    "ConversionOptions \<Rightarrow> (string \<times> JsonValue) list \<Rightarrow> string \<Rightarrow>
       (string \<times> InterfaceProperties) list"
where
  "spec_discovered_records opts JNull name = []"
| "spec_discovered_records opts (JArray items) name =
     (if items = [] \<or> (detectEnums opts \<and> list_all is_string items) then []
      else spec_discovered_in_items opts items (name @ ''Item''))"
| "spec_discovered_records opts (JObject entries) name =
     (filter is_word name,
      fst (object_entries opts entries (filter is_word name) [] empty_registries))
     # spec_discovered_in_entries opts entries (filter is_word name)"
| "spec_discovered_records opts (JString s) name = []"
| "spec_discovered_records opts (JNumber n) name = []"
| "spec_discovered_records opts (JBoolean b) name = []"
| "spec_discovered_in_items opts [] name = []"
| "spec_discovered_in_items opts (item # items) name =
     spec_discovered_records opts item name @ spec_discovered_in_items opts items name"
| "spec_discovered_in_entries opts [] interfaceName = []"
| "spec_discovered_in_entries opts ((key, val) # entries) interfaceName =
     spec_discovered_records opts val (child_name opts interfaceName key)
     @ spec_discovered_in_entries opts entries interfaceName"

text \<open>The values that are neither arrays nor objects.\<close>

fun is_primitive :: "JsonValue \<Rightarrow> bool" where
  "is_primitive (JArray items) = False"
| "is_primitive (JObject entries) = False"
| "is_primitive v = True"

section \<open>The walk on a bounded call stack\<close>

text \<open>
  \<^verbatim>\<open>generateTypeDefinition\<close> calls itself once for every level of nesting that it
  descends, directly for the values of an object and through \<^verbatim>\<open>value.map\<close> for the items
  of an array, and the source has no guard on the depth. The engine throws
  \<^verbatim>\<open>RangeError\<close> at a call for which its stack has no room; neither function of the
  conversion catches it.
\<close>

datatype error = RangeError

text \<open>
  The walk of above with the room of the stack made explicit: the first argument is the
  number of nested activations of \<^verbatim>\<open>generateTypeDefinition\<close> that the stack still holds
  (the frames of \<^verbatim>\<open>map\<close> and of its callback are counted with the activation they lead
  to). An activation with no room left is the \<^verbatim>\<open>RangeError\<close>; an error of a nested call
  ends the calling loops and activations.
\<close>

fun generateTypeDefinition_on_stack ::
    "nat \<Rightarrow> ConversionOptions \<Rightarrow> JsonValue \<Rightarrow> string \<Rightarrow> registries \<Rightarrow>
       error + (string \<times> registries)"
  and array_items_on_stack ::
    "nat \<Rightarrow> ConversionOptions \<Rightarrow> JsonValue list \<Rightarrow> string \<Rightarrow> registries \<Rightarrow>
       error + (string list \<times> registries)"
  and object_entries_on_stack ::
    "nat \<Rightarrow> ConversionOptions \<Rightarrow> (string \<times> JsonValue) list \<Rightarrow> string \<Rightarrow> InterfaceProperties \<Rightarrow>
       registries \<Rightarrow> error + (InterfaceProperties \<times> registries)"
where
  "generateTypeDefinition_on_stack 0 opts v name rs = Inl RangeError"
| "generateTypeDefinition_on_stack (Suc room) opts JNull name rs =
     Inr (if strictNullChecks opts then ''null'' else ''any'', rs)"
| "generateTypeDefinition_on_stack (Suc room) opts (JArray items) name rs =
     (if items = [] then Inr (''any[]'', rs)
      else if detectEnums opts \<and> list_all is_string items then
        (let enumName = name @ ''Enum'';
             stringItems = string_items items
         in Inr (enumName,
                 rs\<lparr>enumTypes := js_map_set enumName (new_Set stringItems) (enumTypes rs)\<rparr>))
      else
        (case array_items_on_stack room opts items (name @ ''Item'') rs of
           Inl e \<Rightarrow> Inl e
         | Inr (itemTypes, rs') \<Rightarrow> Inr (sequence_type itemTypes, rs')))"
| "generateTypeDefinition_on_stack (Suc room) opts (JObject entries) name rs =
     (let interfaceName = filter is_word name
      in case object_entries_on_stack room opts entries interfaceName [] rs of
           Inl e \<Rightarrow> Inl e
         | Inr (properties, rs') \<Rightarrow>
             Inr (interfaceName,
                  rs'\<lparr>interfaces := js_map_set interfaceName properties (interfaces rs')\<rparr>))"
| "generateTypeDefinition_on_stack (Suc room) opts (JString s) name rs = Inr (''string'', rs)"
| "generateTypeDefinition_on_stack (Suc room) opts (JNumber n) name rs = Inr (''number'', rs)"
| "generateTypeDefinition_on_stack (Suc room) opts (JBoolean b) name rs = Inr (''boolean'', rs)"
| "array_items_on_stack room opts [] name rs = Inr ([], rs)"
| "array_items_on_stack room opts (item # items) name rs =
     (case generateTypeDefinition_on_stack room opts item name rs of
        Inl e \<Rightarrow> Inl e
      | Inr (itemType, rs1) \<Rightarrow>
          (case array_items_on_stack room opts items name rs1 of
             Inl e \<Rightarrow> Inl e
           | Inr (itemTypes, rs2) \<Rightarrow> Inr (itemType # itemTypes, rs2)))"
| "object_entries_on_stack room opts [] interfaceName properties rs = Inr (properties, rs)"
| "object_entries_on_stack room opts ((key, val) # entries) interfaceName properties rs =
     (let propName = (if camelCase opts then toCamelCase key else key)
      in case generateTypeDefinition_on_stack room opts val
                (interfaceName @ capitalizeFirstLetter propName) rs of
           Inl e \<Rightarrow> Inl e
         | Inr (propType, rs1) \<Rightarrow>
             object_entries_on_stack room opts entries interfaceName
               (obj_set key propType properties) rs1)"

text \<open>
  \<^verbatim>\<open>convertJsonToTypeScript\<close> on a stack with room for \<open>stack\<close> activations of the walk:
  the error of the walk leaves the function, as an uncaught exception does.
\<close>

definition convertJsonToTypeScript_on_stack ::
    "nat \<Rightarrow> ConversionOptions \<Rightarrow> JsonValue \<Rightarrow> string \<Rightarrow> error + string" where
  "convertJsonToTypeScript_on_stack stack opts json rootName =
     (case generateTypeDefinition_on_stack stack opts json rootName empty_registries of
        Inl e \<Rightarrow> Inl e
      | Inr (rootType, rs) \<Rightarrow> Inr (trim (render_output opts rs)))"

text \<open>
  The number of nested activations that the walk of a value needs: one for the value, and
  those of its deepest item or property value where the walk descends into them (it
  does not descend into an empty array, nor into an array taken as an enum).
\<close>

fun walk_depth :: "ConversionOptions \<Rightarrow> JsonValue \<Rightarrow> nat"
  and items_depth :: "ConversionOptions \<Rightarrow> JsonValue list \<Rightarrow> nat"
  and entries_depth :: "ConversionOptions \<Rightarrow> (string \<times> JsonValue) list \<Rightarrow> nat"
where
  "walk_depth opts JNull = 1"
| "walk_depth opts (JArray items) =
     (if items = [] \<or> (detectEnums opts \<and> list_all is_string items) then 1
      else Suc (items_depth opts items))"
| "walk_depth opts (JObject entries) = Suc (entries_depth opts entries)"
| "walk_depth opts (JString s) = 1"
| "walk_depth opts (JNumber n) = 1"
| "walk_depth opts (JBoolean b) = 1"
| "items_depth opts [] = 0"
| "items_depth opts (item # items) = max (walk_depth opts item) (items_depth opts items)"
| "entries_depth opts [] = 0"
| "entries_depth opts ((key, val) # entries) =
     max (walk_depth opts val) (entries_depth opts entries)"

text \<open>The JSON text of \<open>n\<close> opening brackets, \<^verbatim>\<open>[]\<close>, and \<open>n\<close> closing brackets.\<close>

fun nested_arrays :: "nat \<Rightarrow> JsonValue" where
  "nested_arrays 0 = JArray []"
| "nested_arrays (Suc n) = JArray [nested_arrays n]"

section \<open>The module state around a call\<close>

text \<open>
  The module-level state of \<^verbatim>\<open>App.vue\<close>: the five \<^verbatim>\<open>ref\<close>s and the reactive
  \<^verbatim>\<open>options\<close> (the ref \<^verbatim>\<open>interfaceName\<close> has a suffix here, the name being a variable of
  the walk as well).
\<close>

record module_state =
  jsonInput :: string
  jsonError :: string
  typescriptOutput :: string
  interfaceName_ref :: string
  copied :: bool
  options :: ConversionOptions

text \<open>
  A call \<^verbatim>\<open>convertJsonToTypeScript(json, rootName)\<close> made in a module state, on a stack
  with room for \<open>stack\<close> activations of the walk: what the call returns or throws, and the
  module state after it. The function reads \<^verbatim>\<open>options\<close> and assigns to no module-level
  variable; its two registries are created by the call.
\<close>

definition convertJsonToTypeScript_call ::
    "nat \<Rightarrow> module_state \<Rightarrow> JsonValue \<Rightarrow> string \<Rightarrow> (error + string) \<times> module_state" where
  "convertJsonToTypeScript_call stack s json rootName =
     (convertJsonToTypeScript_on_stack stack (options s) json rootName, s)"

section \<open>Equations of the walk\<close>

lemma gen_array_enum:
  assumes "items \<noteq> []" and "detectEnums opts" and "list_all is_string items"
  shows "generateTypeDefinition opts (JArray items) name rs =
           (name @ ''Enum'',
            rs\<lparr>enumTypes := js_map_set (name @ ''Enum'') (new_Set (string_items items))
                                (enumTypes rs)\<rparr>)"
  using assms by (simp add: Let_def)

lemma gen_array_generic:
  assumes "items \<noteq> []" and "\<not> (detectEnums opts \<and> list_all is_string items)"
  shows "generateTypeDefinition opts (JArray items) name rs =
           (sequence_type (fst (array_items opts items (name @ ''Item'') rs)),
            snd (array_items opts items (name @ ''Item'') rs))"
  using assms by (auto simp add: case_prod_beta)

lemma gen_object:
  "generateTypeDefinition opts (JObject entries) name rs =
     (filter is_word name,
      apply_registration (snd (object_entries opts entries (filter is_word name) [] rs))
        (SetInterface (filter is_word name)
           (fst (object_entries opts entries (filter is_word name) [] rs))))"
  by (simp add: case_prod_beta Let_def)

lemma array_items_Cons:
  "array_items opts (item # items) name rs =
     (fst (generateTypeDefinition opts item name rs)
        # fst (array_items opts items name (snd (generateTypeDefinition opts item name rs))),
      snd (array_items opts items name (snd (generateTypeDefinition opts item name rs))))"
  by (simp add: case_prod_beta)

lemma object_entries_Cons:
  "object_entries opts ((key, val) # entries) interfaceName properties rs =
     object_entries opts entries interfaceName
       (obj_set key (fst (generateTypeDefinition opts val (child_name opts interfaceName key) rs))
          properties)
       (snd (generateTypeDefinition opts val (child_name opts interfaceName key) rs))"
  by (simp add: case_prod_beta Let_def child_name_def)

section \<open>The type expression does not depend on the registries\<close>

lemma type_independent_all:
  "\<forall>rs'. fst (generateTypeDefinition opts v name rs) = fst (generateTypeDefinition opts v name rs')"
  "\<forall>rs'. fst (array_items opts items name rs) = fst (array_items opts items name rs')"
  "\<forall>rs'. fst (object_entries opts es iname props rs) = fst (object_entries opts es iname props rs')"
proof (induction opts v name rs and opts items name rs and opts es iname props rs
       rule: generateTypeDefinition_array_items_object_entries.induct)
  case (2 opts items name rs)
  show ?case
  proof (cases "items \<noteq> [] \<and> \<not> (detectEnums opts \<and> list_all is_string items)")
    case True
    show ?thesis
    proof
      fix rs'
      from 2 True have eq: "fst (array_items opts items (name @ ''Item'') rs)
                     = fst (array_items opts items (name @ ''Item'') rs')" by blast
      from True have n: "items \<noteq> []" and g: "\<not> (detectEnums opts \<and> list_all is_string items)"
        by blast+
      show "fst (generateTypeDefinition opts (JArray items) name rs)
          = fst (generateTypeDefinition opts (JArray items) name rs')"
        by (simp only: gen_array_generic[OF n g] fst_conv eq)
    qed
  next
    case False
    then show ?thesis by (auto simp: Let_def)
  qed
next
  case (3 opts entries name rs)
  show ?case by (simp only: gen_object fst_conv) simp
next
  case (8 opts item items name rs)
  show ?case
  proof
    fix rs'
    have a: "fst (generateTypeDefinition opts item name rs) = fst (generateTypeDefinition opts item name rs')"
      using 8(1) by blast
    have b: "fst (array_items opts items name (snd (generateTypeDefinition opts item name rs)))
       = fst (array_items opts items name (snd (generateTypeDefinition opts item name rs')))"
      using 8(2)[OF prod.collapse] by blast
    show "fst (array_items opts (item # items) name rs) = fst (array_items opts (item # items) name rs')"
      by (simp only: array_items_Cons fst_conv a b)
  qed
next
  case (10 opts key val entries interfaceName properties rs)
  let ?n = "child_name opts interfaceName key"
  show ?case
  proof
    fix rs'
    have a: "fst (generateTypeDefinition opts val ?n rs) = fst (generateTypeDefinition opts val ?n rs')"
      using 10(1)[OF refl] unfolding child_name_def by blast
    have b: "fst (object_entries opts entries interfaceName
              (obj_set key (fst (generateTypeDefinition opts val ?n rs)) properties)
              (snd (generateTypeDefinition opts val ?n rs)))
     = fst (object_entries opts entries interfaceName
              (obj_set key (fst (generateTypeDefinition opts val ?n rs)) properties)
              (snd (generateTypeDefinition opts val ?n rs')))"
      using 10(2)[OF refl prod.collapse] unfolding child_name_def by blast
    show "fst (object_entries opts ((key, val) # entries) interfaceName properties rs)
        = fst (object_entries opts ((key, val) # entries) interfaceName properties rs')"
      by (simp only: object_entries_Cons b) (simp only: a)
  qed
qed simp_all

lemma type_independent:
  "fst (generateTypeDefinition opts v name rs) = fst (generateTypeDefinition opts v name rs')"
  using type_independent_all(1) by blast

lemma item_types_independent:
  "fst (array_items opts items name rs) = fst (array_items opts items name rs')"
  using type_independent_all(2) by blast

lemma properties_independent:
  "fst (object_entries opts es iname props rs) = fst (object_entries opts es iname props rs')"
  using type_independent_all(3) by blast

lemma item_types_map:
  "fst (array_items opts items name rs) =
     map (\<lambda>item. fst (generateTypeDefinition opts item name rs0)) items"
proof (induction items arbitrary: rs)
  case Nil
  show ?case by simp
next
  case (Cons item items)
  have "fst (generateTypeDefinition opts item name rs) = fst (generateTypeDefinition opts item name rs0)"
    by (rule type_independent)
  with Cons show ?case by (simp only: array_items_Cons fst_conv list.map)
qed

section \<open>The registries after a walk are its registrations, applied in order\<close>

lemma walk_registrations_all:
  "snd (generateTypeDefinition opts v name rs) = foldl apply_registration rs (registrations opts v name)"
  "snd (array_items opts items name rs) = foldl apply_registration rs (item_registrations opts items name)"
  "snd (object_entries opts es iname props rs) = foldl apply_registration rs (entry_registrations opts es iname)"
proof (induction opts v name rs and opts items name rs and opts es iname props rs
       rule: generateTypeDefinition_array_items_object_entries.induct)
  case (2 opts items name rs)
  show ?case
  proof (cases "items \<noteq> [] \<and> \<not> (detectEnums opts \<and> list_all is_string items)")
    case True
    then have n: "items \<noteq> []" and g: "\<not> (detectEnums opts \<and> list_all is_string items)"
      by blast+
    from 2 n g have "snd (array_items opts items (name @ ''Item'') rs)
        = foldl apply_registration rs (item_registrations opts items (name @ ''Item''))" by blast
    moreover have "registrations opts (JArray items) name
        = item_registrations opts items (name @ ''Item'')"
      using n g by auto
    ultimately show ?thesis by (simp only: gen_array_generic[OF n g] snd_conv)
  next
    case False
    then show ?thesis by (auto simp: Let_def)
  qed
next
  case (3 opts entries name rs)
  have "snd (object_entries opts entries (filter is_word name) [] rs)
      = foldl apply_registration rs (entry_registrations opts entries (filter is_word name))"
    using 3 by blast
  moreover have "fst (object_entries opts entries (filter is_word name) [] rs)
      = fst (object_entries opts entries (filter is_word name) [] empty_registries)"
    by (rule properties_independent)
  ultimately show ?case
    by (simp only: gen_object snd_conv registrations.simps foldl_append foldl.simps)
next
  case (8 opts item items name rs)
  have a: "snd (generateTypeDefinition opts item name rs)
      = foldl apply_registration rs (registrations opts item name)"
    using 8(1) .
  have b: "snd (array_items opts items name (snd (generateTypeDefinition opts item name rs)))
      = foldl apply_registration (snd (generateTypeDefinition opts item name rs))
          (item_registrations opts items name)"
    using 8(2)[OF prod.collapse] .
  show ?case
    by (simp only: array_items_Cons snd_conv b item_registrations.simps foldl_append)
       (simp only: a)
next
  case (10 opts key val entries interfaceName properties rs)
  let ?n = "child_name opts interfaceName key"
  have a: "snd (generateTypeDefinition opts val ?n rs)
      = foldl apply_registration rs (registrations opts val ?n)"
    using 10(1)[OF refl] unfolding child_name_def .
  have b: "snd (object_entries opts entries interfaceName
              (obj_set key (fst (generateTypeDefinition opts val ?n rs)) properties)
              (snd (generateTypeDefinition opts val ?n rs)))
      = foldl apply_registration (snd (generateTypeDefinition opts val ?n rs))
          (entry_registrations opts entries interfaceName)"
    using 10(2)[OF refl prod.collapse] unfolding child_name_def .
  show ?case
    by (simp only: object_entries_Cons b entry_registrations.simps foldl_append)
       (simp only: a)
qed simp_all

lemma walk_registrations:
  "snd (generateTypeDefinition opts v name rs) = foldl apply_registration rs (registrations opts v name)"
  by (rule walk_registrations_all(1))

section \<open>Sets and maps of JavaScript\<close>

lemma new_Set_snoc: "new_Set (xs @ [x]) = set_add x (new_Set xs)"
  by (simp add: new_Set_def)

lemma new_Set_first_seen: "new_Set xs = rev (remdups (rev xs))"
proof (induction xs rule: rev_induct)
  case Nil
  show ?case by (simp add: new_Set_def)
next
  case (snoc x xs)
  then show ?case by (simp add: new_Set_snoc set_add_def)
qed

lemma set_new_Set: "set (new_Set xs) = set xs"
  by (simp add: new_Set_first_seen)

lemma distinct_new_Set: "distinct (new_Set xs)"
  by (simp add: new_Set_first_seen)

lemma length_new_Set: "length (new_Set xs) = card (set xs)"
  by (simp add: new_Set_first_seen length_remdups_card_conv)

lemma new_Set_size_one: "length (new_Set ts) = 1 \<longleftrightarrow> ts \<noteq> [] \<and> (\<forall>t\<in>set ts. t = hd ts)"
proof
  assume "length (new_Set ts) = 1"
  then have "card (set ts) = 1" by (simp add: length_new_Set)
  then obtain x where x: "set ts = {x}" by (auto simp: card_1_singleton_iff)
  then have "ts \<noteq> []" by auto
  moreover from this x have "hd ts = x" using hd_in_set by fastforce
  ultimately show "ts \<noteq> [] \<and> (\<forall>t\<in>set ts. t = hd ts)" using x by auto
next
  assume a: "ts \<noteq> [] \<and> (\<forall>t\<in>set ts. t = hd ts)"
  then have "set ts = {hd ts}" using hd_in_set by auto
  then show "length (new_Set ts) = 1" by (simp add: length_new_Set)
qed

lemma keys_js_map_set: "map fst (js_map_set k v m) = set_add k (map fst m)"
  by (induction m) (force simp: set_add_def)+

lemma map_of_js_map_set: "map_of (js_map_set k v m) = (map_of m)(k \<mapsto> v)"
  by (induction m) (auto simp: fun_eq_iff)

lemma interfaces_foldl:
  "interfaces (foldl apply_registration rs ws) =
     foldl (\<lambda>m w. js_map_set (fst w) (snd w) m) (interfaces rs) (interface_writes ws)"
proof (induction ws arbitrary: rs)
  case Nil
  show ?case by simp
next
  case (Cons w ws)
  then show ?case by (cases w) simp_all
qed

lemma enumTypes_foldl:
  "enumTypes (foldl apply_registration rs ws) =
     foldl (\<lambda>m w. js_map_set (fst w) (snd w) m) (enumTypes rs) (enum_writes ws)"
proof (induction ws arbitrary: rs)
  case Nil
  show ?case by simp
next
  case (Cons w ws)
  then show ?case by (cases w) simp_all
qed

lemma keys_foldl:
  "map fst (foldl (\<lambda>m w. js_map_set (fst w) (snd w) m) m ws) =
     foldl (\<lambda>s x. set_add x s) (map fst m) (map fst ws)"
  by (induction ws arbitrary: m) (simp_all add: keys_js_map_set)

lemma keys_foldl_empty:
  "map fst (foldl (\<lambda>m w. js_map_set (fst w) (snd w) m) [] ws) = new_Set (map fst ws)"
  by (simp add: keys_foldl new_Set_def)

lemma map_of_foldl:
  "map_of (foldl (\<lambda>m w. js_map_set (fst w) (snd w) m) m ws) = map_of (rev ws @ m)"
proof (induction ws arbitrary: m)
  case Nil
  show ?case by simp
next
  case (Cons w ws)
  have "map_of (rev ws @ js_map_set (fst w) (snd w) m) = map_of (rev ws @ [w] @ m)"
    by (simp add: map_of_js_map_set fun_eq_iff map_add_def split: option.splits)
  with Cons show ?case by simp
qed

lemma distinct_keys_foldl:
  "distinct (map fst m) \<Longrightarrow>
     distinct (map fst (foldl (\<lambda>m w. js_map_set (fst w) (snd w) m) m ws))"
proof (induction ws arbitrary: m)
  case Nil
  then show ?case by simp
next
  case (Cons w ws)
  have "distinct (map fst (js_map_set (fst w) (snd w) m))"
    using Cons.prems by (simp add: keys_js_map_set set_add_def)
  then show ?case using Cons.IH by simp
qed

lemma render_output_empty: "render_output opts empty_registries = []"
  by (simp add: render_output_def empty_registries_def)

lemma trim_empty: "trim [] = []"
  by (simp add: trim_def)

section \<open>The rendered text\<close>

lemma render_enum_starts: "\<exists>r. render_enum e = CHR ''e'' # r"
  by (cases e) (simp add: render_enum_def)

lemma render_interface_starts: "\<exists>r. render_interface opts i = CHR ''i'' # r"
  by (cases i) (simp add: render_interface_def)

lemma concat_map_starts:
  assumes "\<And>x. \<exists>r. f x = c # r" and "xs \<noteq> []"
  shows "\<exists>r. concat (map f xs) = c # r"
proof -
  from assms(2) obtain y ys where xs: "xs = y # ys" by (cases xs) auto
  from assms(1) obtain r where "f y = c # r" by blast
  with xs show ?thesis by simp
qed

lemma render_output_no_leading_space:
  "dropWhile is_space (render_output opts rs) = render_output opts rs"
proof (cases "detectEnums opts \<and> enumTypes rs \<noteq> []")
  case True
  then obtain r where "concat (map render_enum (enumTypes rs)) = CHR ''e'' # r"
    using concat_map_starts[of render_enum "CHR ''e''" "enumTypes rs"] render_enum_starts by blast
  with True show ?thesis by (simp add: render_output_def is_space_def)
next
  case False
  then have eq: "render_output opts rs = concat (map (render_interface opts) (interfaces rs))"
    by (auto simp: render_output_def)
  show ?thesis
  proof (cases "interfaces rs = []")
    case True
    with eq show ?thesis by simp
  next
    case False
    then obtain r where "concat (map (render_interface opts) (interfaces rs)) = CHR ''i'' # r"
      using concat_map_starts[of "render_interface opts" "CHR ''i''" "interfaces rs"]
        render_interface_starts by blast
    with eq show ?thesis by (simp add: is_space_def)
  qed
qed

lemma trim_render_output:
  "trim (render_output opts rs) = rev (dropWhile is_space (rev (render_output opts rs)))"
  by (simp add: trim_def render_output_no_leading_space)

section \<open>Registrations of consecutive items and entries\<close>

lemma item_registrations_append:
  "item_registrations opts (xs @ ys) name
     = item_registrations opts xs name @ item_registrations opts ys name"
  by (induction xs) simp_all

lemma entry_registrations_append:
  "entry_registrations opts (es @ fs) interfaceName
     = entry_registrations opts es interfaceName @ entry_registrations opts fs interfaceName"
  by (induction es) auto

section \<open>Arrays of primitives\<close>

lemma string_array_items:
  "list_all is_string items \<Longrightarrow>
     array_items opts items name rs = (replicate (length items) ''string'', rs)"
proof (induction items)
  case Nil
  show ?case by simp
next
  case (Cons item items)
  then obtain s where "item = JString s" by (cases item) auto
  with Cons show ?case by simp
qed

lemma set_add_replicate: "foldl (\<lambda>s y. set_add y s) [x] (replicate n x) = [x]"
  by (induction n) (simp_all add: set_add_def)

lemma new_Set_replicate: "0 < n \<Longrightarrow> new_Set (replicate n x) = [x]"
proof -
  assume "0 < n"
  then obtain k where n: "n = Suc k" by (cases n) auto
  have "set_add x [] = [x]" by (simp add: set_add_def)
  then have "new_Set (replicate (Suc k) x) = foldl (\<lambda>s y. set_add y s) [x] (replicate k x)"
    by (simp add: new_Set_def)
  with n show ?thesis by (simp only: set_add_replicate)
qed

lemma primitive_walk: "is_primitive v \<Longrightarrow> snd (generateTypeDefinition opts v name rs) = rs"
  by (cases v) simp_all

lemma primitive_array_items:
  "list_all is_primitive items \<Longrightarrow> snd (array_items opts items name rs) = rs"
proof (induction items)
  case Nil
  show ?case by simp
next
  case (Cons item items)
  then show ?case by (simp add: array_items_Cons primitive_walk del: array_items.simps)
qed

lemma enum_writes_append: "enum_writes (xs @ ys) = enum_writes xs @ enum_writes ys"
  by (induction xs rule: enum_writes.induct) simp_all

lemma interface_writes_append:
  "interface_writes (xs @ ys) = interface_writes xs @ interface_writes ys"
  by (induction xs rule: interface_writes.induct) simp_all

lemma no_enum_registrations:
  "\<not> detectEnums opts \<Longrightarrow> enum_writes (registrations opts v name) = []"
  "\<not> detectEnums opts \<Longrightarrow> enum_writes (item_registrations opts items name) = []"
  "\<not> detectEnums opts \<Longrightarrow> enum_writes (entry_registrations opts es iname) = []"
proof (induction opts v name and opts items name and opts es iname
       rule: registrations_item_registrations_entry_registrations.induct)
qed (auto simp: enum_writes_append)

section \<open>The bounded stack against the unbounded walk\<close>

lemma walk_depth_pos: "0 < walk_depth opts v"
  by (cases v) simp_all

lemma gen_on_stack_array_generic:
  assumes "items \<noteq> []" and "\<not> (detectEnums opts \<and> list_all is_string items)"
  shows "generateTypeDefinition_on_stack (Suc room) opts (JArray items) name rs =
           (case array_items_on_stack room opts items (name @ ''Item'') rs of
              Inl e \<Rightarrow> Inl e
            | Inr r \<Rightarrow> Inr (sequence_type (fst r), snd r))"
  using assms by (auto simp add: case_prod_beta split: sum.splits)

lemma walk_depth_array_generic:
  assumes "items \<noteq> []" and "\<not> (detectEnums opts \<and> list_all is_string items)"
  shows "walk_depth opts (JArray items) = Suc (items_depth opts items)"
  using assms by auto

lemma on_stack_all:
  "generateTypeDefinition_on_stack room opts v name rs =
     (if walk_depth opts v \<le> room then Inr (generateTypeDefinition opts v name rs)
      else Inl RangeError)"
  "array_items_on_stack room opts items name rs =
     (if items_depth opts items \<le> room then Inr (array_items opts items name rs)
      else Inl RangeError)"
  "object_entries_on_stack room opts es iname props rs =
     (if entries_depth opts es \<le> room then Inr (object_entries opts es iname props rs)
      else Inl RangeError)"
proof (induction room opts v name rs and room opts items name rs and room opts es iname props rs
       rule: generateTypeDefinition_on_stack_array_items_on_stack_object_entries_on_stack.induct)
  case (1 opts v name rs)
  show ?case using walk_depth_pos[of opts v] by simp
next
  case (3 room opts items name rs)
  show ?case
  proof (cases "items \<noteq> [] \<and> \<not> (detectEnums opts \<and> list_all is_string items)")
    case True
    then have n: "items \<noteq> []" and g: "\<not> (detectEnums opts \<and> list_all is_string items)"
      by blast+
    have ih: "array_items_on_stack room opts items (name @ ''Item'') rs =
       (if items_depth opts items \<le> room then Inr (array_items opts items (name @ ''Item'') rs)
        else Inl RangeError)"
      using 3 n g by blast
    show ?thesis
      by (simp only: gen_on_stack_array_generic[OF n g] walk_depth_array_generic[OF n g]
            gen_array_generic[OF n g] ih)
         simp
  next
    case False
    then show ?thesis by (auto simp: Let_def)
  qed
next
  case (4 room opts entries name rs)
  have ih: "object_entries_on_stack room opts entries (filter is_word name) [] rs =
     (if entries_depth opts entries \<le> room
      then Inr (object_entries opts entries (filter is_word name) [] rs)
      else Inl RangeError)"
    using 4 by blast
  show ?case
    by (simp add: ih Let_def case_prod_beta del: object_entries_on_stack.simps object_entries.simps)
next
  case (9 room opts item items name rs)
  have a: "generateTypeDefinition_on_stack room opts item name rs =
     (if walk_depth opts item \<le> room then Inr (generateTypeDefinition opts item name rs)
      else Inl RangeError)"
    using 9(1) .
  show ?case
  proof (cases "walk_depth opts item \<le> room")
    case False
    with a show ?thesis by simp
  next
    case True
    with a have a': "generateTypeDefinition_on_stack room opts item name rs
        = Inr (generateTypeDefinition opts item name rs)" by simp
    have b: "array_items_on_stack room opts items name (snd (generateTypeDefinition opts item name rs)) =
       (if items_depth opts items \<le> room
        then Inr (array_items opts items name (snd (generateTypeDefinition opts item name rs)))
        else Inl RangeError)"
      using 9(2)[OF a' prod.collapse] .
    have l: "array_items_on_stack room opts (item # items) name rs
        = (case array_items_on_stack room opts items name (snd (generateTypeDefinition opts item name rs)) of
             Inl e \<Rightarrow> Inl e
           | Inr r \<Rightarrow> Inr (fst (generateTypeDefinition opts item name rs) # fst r, snd r))"
      by (simp add: a' case_prod_beta split: sum.splits)
    show ?thesis using True by (simp only: l b array_items_Cons) simp
  qed
next
  case (11 room opts key val entries interfaceName properties rs)
  let ?n = "interfaceName @ capitalizeFirstLetter (if camelCase opts then toCamelCase key else key)"
  have a: "generateTypeDefinition_on_stack room opts val ?n rs =
     (if walk_depth opts val \<le> room then Inr (generateTypeDefinition opts val ?n rs)
      else Inl RangeError)"
    using 11(1)[OF refl] .
  show ?case
  proof (cases "walk_depth opts val \<le> room")
    case False
    with a show ?thesis by (simp add: Let_def)
  next
    case True
    with a have a': "generateTypeDefinition_on_stack room opts val ?n rs
        = Inr (generateTypeDefinition opts val ?n rs)" by simp
    have b: "object_entries_on_stack room opts entries interfaceName
         (obj_set key (fst (generateTypeDefinition opts val ?n rs)) properties)
         (snd (generateTypeDefinition opts val ?n rs)) =
       (if entries_depth opts entries \<le> room
        then Inr (object_entries opts entries interfaceName
               (obj_set key (fst (generateTypeDefinition opts val ?n rs)) properties)
               (snd (generateTypeDefinition opts val ?n rs)))
        else Inl RangeError)"
      using 11(2)[OF refl a' prod.collapse] .
    have l: "object_entries_on_stack room opts ((key, val) # entries) interfaceName properties rs
        = object_entries_on_stack room opts entries interfaceName
            (obj_set key (fst (generateTypeDefinition opts val ?n rs)) properties)
            (snd (generateTypeDefinition opts val ?n rs))"
      by (simp add: Let_def a' case_prod_beta del: generateTypeDefinition.simps)
    have r: "object_entries opts ((key, val) # entries) interfaceName properties rs
        = object_entries opts entries interfaceName
            (obj_set key (fst (generateTypeDefinition opts val ?n rs)) properties)
            (snd (generateTypeDefinition opts val ?n rs))"
      by (simp add: Let_def case_prod_beta)
    show ?thesis using True by (simp only: l r b) simp
  qed
qed simp_all

lemma convert_on_stack_eq:
  "convertJsonToTypeScript_on_stack stack opts json rootName =
     (if walk_depth opts json \<le> stack then Inr (convertJsonToTypeScript opts json rootName)
      else Inl RangeError)"
  by (simp add: convertJsonToTypeScript_on_stack_def convertJsonToTypeScript_def
        on_stack_all(1) case_prod_beta)

lemma nested_arrays_not_string: "\<not> is_string (nested_arrays n)"
  by (cases n) simp_all

lemma walk_depth_nested_arrays: "walk_depth opts (nested_arrays n) = Suc n"
  by (induction n) (simp_all add: nested_arrays_not_string)

section \<open>The record registry after a walk\<close>

lemma alist_rebuild:
  "distinct (map fst m) \<Longrightarrow> map (\<lambda>k. (k, the (map_of m k))) (map fst m) = m"
proof (induction m)
  case Nil
  show ?case by simp
next
  case (Cons p m)
  obtain k v where p: "p = (k, v)" by (cases p)
  from Cons.prems p have k: "k \<notin> set (map fst m)" and d: "distinct (map fst m)" by simp_all
  have "map (\<lambda>k'. (k', the (map_of (p # m) k'))) (map fst m)
      = map (\<lambda>k'. (k', the (map_of m k'))) (map fst m)"
  proof (rule map_cong[OF refl])
    fix x assume "x \<in> set (map fst m)"
    with k have "x \<noteq> k" by blast
    then show "(x, the (map_of (p # m) x)) = (x, the (map_of m x))" using p by simp
  qed
  with Cons.IH[OF d] p show ?case by simp
qed

lemma interfaces_after_walk:
  "interfaces (snd (generateTypeDefinition opts json rootName empty_registries))
     = map (\<lambda>n. (n, the (map_of (rev (interface_writes (registrations opts json rootName))) n)))
         (new_Set (map fst (interface_writes (registrations opts json rootName))))"
proof -
  let ?m = "interfaces (snd (generateTypeDefinition opts json rootName empty_registries))"
  let ?ws = "interface_writes (registrations opts json rootName)"
  have d: "distinct (map fst ?m)"
    by (simp add: walk_registrations interfaces_foldl empty_registries_def distinct_keys_foldl)
  have k: "map fst ?m = new_Set (map fst ?ws)"
    by (simp add: walk_registrations interfaces_foldl empty_registries_def keys_foldl_empty)
  have v: "map_of ?m = map_of (rev ?ws)"
    by (simp add: walk_registrations interfaces_foldl empty_registries_def map_of_foldl)
  have "?m = map (\<lambda>n. (n, the (map_of ?m n))) (map fst ?m)"
    using alist_rebuild[OF d] by simp
  then show ?thesis unfolding v k .
qed

section \<open>The end-to-end example\<close>

text \<open>
  Claim C1. For the input \<^verbatim>\<open>{"id":1,"user_name":"john_doe","is_active":true,"roles":["admin","user"]}\<close>,
  the root name \<^verbatim>\<open>RootObject\<close> and all four flags set, the claim expects the property
  \<^verbatim>\<open>roles\<close> to have the type \<^verbatim>\<open>RootObjectRolesEnum[]\<close>, as the usage example of the
  README does. The conversion returns the text below: the enum and the interface are as
  claimed, except that the type of \<^verbatim>\<open>roles\<close> is the bare enum name, without \<^verbatim>\<open>[]\<close>.
\<close>

theorem readme_example_output:
  "convertJsonToTypeScript
     \<lparr>detectEnums = True, camelCase = True, markOptional = True, strictNullChecks = True\<rparr>
     (JObject [(''id'', JNumber 1), (''user_name'', JString ''john_doe''),
               (''is_active'', JBoolean True),
               (''roles'', JArray [JString ''admin'', JString ''user''])])
     ''RootObject''
   = ''enum RootObjectRolesEnum {\<newline>''
     @ ''  admin = '' @ [CHR 0x22] @ ''admin'' @ [CHR 0x22] @ '',\<newline>''
     @ ''  user = '' @ [CHR 0x22] @ ''user'' @ [CHR 0x22] @ ''\<newline>''
     @ ''}\<newline>\<newline>''
     @ ''interface RootObject {\<newline>''
     @ ''  id?: number;\<newline>''
     @ ''  userName?: string;\<newline>''
     @ ''  isActive?: boolean;\<newline>''
     @ ''  roles?: RootObjectRolesEnum;\<newline>''
     @ ''}''"
  by code_simp

section \<open>Arrays of strings when enum detection is off\<close>

text \<open>
  Claim C2, as stated, at a concrete input. With \<^verbatim>\<open>detectEnums\<close> false the walk of
  \<^verbatim>\<open>{"roles": ["admin","user","admin"]}\<close> registers no enum, and the property \<^verbatim>\<open>roles\<close>
  gets the type \<^verbatim>\<open>string[]\<close>, not the name \<^verbatim>\<open>RootObjectRolesEnum\<close>.
\<close>

theorem disabled_detection_registers_nothing:
  "generateTypeDefinition
     \<lparr>detectEnums = False, camelCase = False, markOptional = False, strictNullChecks = True\<rparr>
     (JObject [(''roles'', JArray [JString ''admin'', JString ''user'', JString ''admin''])])
     ''RootObject'' empty_registries
   = (''RootObject'',
      \<lparr>interfaces = [(''RootObject'', [(''roles'', ''string[]'')])], enumTypes = []\<rparr>)"
  by code_simp

text \<open>
  Claim C2, amended. When \<^verbatim>\<open>detectEnums\<close> is false, a non-empty array whose elements are
  all strings registers nothing: its walk returns the type expression \<^verbatim>\<open>string[]\<close> and
  leaves both registries as they were; and the walk of any value leaves the enum
  registry as it was.
\<close>

theorem string_array_without_detection:
  assumes "\<not> detectEnums opts" and "items \<noteq> []" and "list_all is_string items"
  shows "generateTypeDefinition opts (JArray items) name rs = (''string[]'', rs)
         \<and> enumTypes (snd (generateTypeDefinition opts json rootName rs)) = enumTypes rs"
proof
  have g: "\<not> (detectEnums opts \<and> list_all is_string items)" using assms(1) by simp
  have n: "0 < length items" using assms(2) by simp
  then have "new_Set (replicate (length items) ''string'') = [''string'']"
    by (rule new_Set_replicate)
  moreover have "hd (replicate (length items) ''string'') = ''string''"
    using n by (cases items) simp_all
  ultimately have "sequence_type (replicate (length items) ''string'') = ''string[]''"
    by (simp add: sequence_type_def)
  then show "generateTypeDefinition opts (JArray items) name rs = (''string[]'', rs)"
    by (simp only: gen_array_generic[OF assms(2) g] string_array_items[OF assms(3)] fst_conv snd_conv)
next
  show "enumTypes (snd (generateTypeDefinition opts json rootName rs)) = enumTypes rs"
    by (simp add: walk_registrations enumTypes_foldl no_enum_registrations(1)[OF assms(1)])
qed

text \<open>
  Claim C2, amended, at the array \<^verbatim>\<open>["admin","user"]\<close> walked under the name
  \<^verbatim>\<open>RootObjectRoles\<close> with empty registries.
\<close>

theorem string_array_without_detection_witness:
  "\<not> detectEnums \<lparr>detectEnums = False, camelCase = True, markOptional = False, strictNullChecks = False\<rparr>
   \<and> [JString ''admin'', JString ''user''] \<noteq> []
   \<and> list_all is_string [JString ''admin'', JString ''user'']
   \<and> generateTypeDefinition
        \<lparr>detectEnums = False, camelCase = True, markOptional = False, strictNullChecks = False\<rparr>
        (JArray [JString ''admin'', JString ''user'']) ''RootObjectRoles'' empty_registries
       = (''string[]'', empty_registries)"
  using string_array_without_detection
    [of "\<lparr>detectEnums = False, camelCase = True, markOptional = False, strictNullChecks = False\<rparr>"
        "[JString ''admin'', JString ''user'']" "''RootObjectRoles''" empty_registries]
  by simp

section \<open>The order of the definitions\<close>

text \<open>
  Claim C3, as stated, at a concrete input: the root object \<^verbatim>\<open>{"a": {}}\<close> under the name
  \<^verbatim>\<open>R\<close>. The walk discovers the root first and the nested object second, but the
  registry of records holds \<^verbatim>\<open>RA\<close> before \<^verbatim>\<open>R\<close>, and so does the output.
\<close>

theorem root_discovered_first_registered_last:
  "map fst (interfaces (snd (generateTypeDefinition
      \<lparr>detectEnums = True, camelCase = False, markOptional = False, strictNullChecks = True\<rparr>
      (JObject [(''a'', JObject [])]) ''R'' empty_registries)))
     = [''RA'', ''R'']
   \<and> map fst (spec_discovered_records
      \<lparr>detectEnums = True, camelCase = False, markOptional = False, strictNullChecks = True\<rparr>
      (JObject [(''a'', JObject [])]) ''R'')
     = [''R'', ''RA'']
   \<and> convertJsonToTypeScript
      \<lparr>detectEnums = True, camelCase = False, markOptional = False, strictNullChecks = True\<rparr>
      (JObject [(''a'', JObject [])]) ''R''
     = ''interface RA {\<newline>}\<newline>\<newline>interface R {\<newline>  a: RA;\<newline>}''"
  by code_simp

text \<open>
  Claim C3, amended. The registries after a walk are the result of its calls of
  \<^verbatim>\<open>set\<close>, applied in the order in which they are made: an enum is registered when its
  array is reached, a record when the walk of its object ends, after everything nested
  in it, so that the registration of an object is the last one of its walk. Each registry
  lists its names in the order of their first registration. The output is the text of
  all enum blocks (if enum detection is on) in the order of the enum registry, followed
  by all record blocks in the order of the record registry, with the white space at its
  end removed.
\<close>

theorem definitions_in_registration_order:
  "snd (generateTypeDefinition opts json rootName rs)
     = foldl apply_registration rs (registrations opts json rootName)
   \<and> last (registrations opts (JObject entries) name)
     = SetInterface (filter is_word name)
         (fst (object_entries opts entries (filter is_word name) [] empty_registries))
   \<and> map fst (enumTypes (snd (generateTypeDefinition opts json rootName empty_registries)))
     = new_Set (map fst (enum_writes (registrations opts json rootName)))
   \<and> map fst (interfaces (snd (generateTypeDefinition opts json rootName empty_registries)))
     = new_Set (map fst (interface_writes (registrations opts json rootName)))
   \<and> convertJsonToTypeScript opts json rootName
     = rev (dropWhile is_space (rev
         ((if detectEnums opts
           then concat (map render_enum
                  (enumTypes (snd (generateTypeDefinition opts json rootName empty_registries))))
           else [])
          @ concat (map (render_interface opts)
              (interfaces (snd (generateTypeDefinition opts json rootName empty_registries)))))))"
proof (intro conjI)
  show "snd (generateTypeDefinition opts json rootName rs)
     = foldl apply_registration rs (registrations opts json rootName)"
    by (rule walk_registrations)
  show "last (registrations opts (JObject entries) name)
     = SetInterface (filter is_word name)
         (fst (object_entries opts entries (filter is_word name) [] empty_registries))"
    by simp
  show "map fst (enumTypes (snd (generateTypeDefinition opts json rootName empty_registries)))
     = new_Set (map fst (enum_writes (registrations opts json rootName)))"
    by (simp add: walk_registrations enumTypes_foldl empty_registries_def keys_foldl_empty)
  show "map fst (interfaces (snd (generateTypeDefinition opts json rootName empty_registries)))
     = new_Set (map fst (interface_writes (registrations opts json rootName)))"
    by (simp add: walk_registrations interfaces_foldl empty_registries_def keys_foldl_empty)
  show "convertJsonToTypeScript opts json rootName
     = rev (dropWhile is_space (rev
         ((if detectEnums opts
           then concat (map render_enum
                  (enumTypes (snd (generateTypeDefinition opts json rootName empty_registries))))
           else [])
          @ concat (map (render_interface opts)
              (interfaces (snd (generateTypeDefinition opts json rootName empty_registries)))))))"
    unfolding convertJsonToTypeScript_def case_prod_beta trim_render_output
    by (simp only: render_output_def)
qed

section \<open>Determinism\<close>

text \<open>
  Claim C4. Two calls of the conversion with the same value, the same root name and the
  same configuration return the same text: whatever the rest of the module state is at
  the two calls, and whatever room the stack has, two calls that return give equal
  strings. A call leaves the module state as it found it, so a second call made after
  the first returns what the first returned. The type expression of the walk does not
  depend on what the registries hold.
\<close>

theorem convert_twice_same_output:
  assumes "options s1 = options s2"
    and "fst (convertJsonToTypeScript_call stack1 s1 json rootName) = Inr out1"
    and "fst (convertJsonToTypeScript_call stack2 s2 json rootName) = Inr out2"
  shows "out1 = out2
       \<and> snd (convertJsonToTypeScript_call stack1 s1 json rootName) = s1
       \<and> fst (convertJsonToTypeScript_call stack1
                (snd (convertJsonToTypeScript_call stack1 s1 json rootName)) json rootName)
         = Inr out1
       \<and> fst (generateTypeDefinition (options s1) json rootName rs1)
         = fst (generateTypeDefinition (options s2) json rootName rs2)"
proof (intro conjI)
  from assms(2) have "out1 = convertJsonToTypeScript (options s1) json rootName"
    by (auto simp: convertJsonToTypeScript_call_def convert_on_stack_eq split: if_splits)
  moreover from assms(3) have "out2 = convertJsonToTypeScript (options s2) json rootName"
    by (auto simp: convertJsonToTypeScript_call_def convert_on_stack_eq split: if_splits)
  ultimately show "out1 = out2" using assms(1) by simp
  show "snd (convertJsonToTypeScript_call stack1 s1 json rootName) = s1"
    by (simp add: convertJsonToTypeScript_call_def)
  then show "fst (convertJsonToTypeScript_call stack1
                (snd (convertJsonToTypeScript_call stack1 s1 json rootName)) json rootName)
         = Inr out1"
    using assms(2) by simp
  show "fst (generateTypeDefinition (options s1) json rootName rs1)
         = fst (generateTypeDefinition (options s2) json rootName rs2)"
    using assms(1) type_independent by simp
qed

text \<open>
  Claim C4 at the value \<^verbatim>\<open>{"a": null}\<close> with the root name \<^verbatim>\<open>R\<close>, called in two module
  states that differ in every variable but \<^verbatim>\<open>options\<close>, on stacks of different room.
\<close>

theorem convert_twice_same_output_witness:
  "options \<lparr>jsonInput = ''{}'', jsonError = [], typescriptOutput = [], interfaceName_ref = ''R'',
            copied = False,
            options = \<lparr>detectEnums = True, camelCase = False, markOptional = False,
                       strictNullChecks = True\<rparr>\<rparr>
   = options \<lparr>jsonInput = ''[]'', jsonError = ''Invalid JSON'', typescriptOutput = ''interface A {}'',
              interfaceName_ref = ''Other'', copied = True,
              options = \<lparr>detectEnums = True, camelCase = False, markOptional = False,
                         strictNullChecks = True\<rparr>\<rparr>
   \<and> fst (convertJsonToTypeScript_call 5
        \<lparr>jsonInput = ''{}'', jsonError = [], typescriptOutput = [], interfaceName_ref = ''R'',
            copied = False,
            options = \<lparr>detectEnums = True, camelCase = False, markOptional = False,
                       strictNullChecks = True\<rparr>\<rparr>
        (JObject [(''a'', JNull)]) ''R'')
     = Inr ''interface R {\<newline>  a: null;\<newline>}''
   \<and> fst (convertJsonToTypeScript_call 7
        \<lparr>jsonInput = ''[]'', jsonError = ''Invalid JSON'', typescriptOutput = ''interface A {}'',
              interfaceName_ref = ''Other'', copied = True,
              options = \<lparr>detectEnums = True, camelCase = False, markOptional = False,
                         strictNullChecks = True\<rparr>\<rparr>
        (JObject [(''a'', JNull)]) ''R'')
     = Inr ''interface R {\<newline>  a: null;\<newline>}''"
proof -
  let ?o = "\<lparr>detectEnums = True, camelCase = False, markOptional = False, strictNullChecks = True\<rparr>"
  let ?s1 = "\<lparr>jsonInput = ''{}'', jsonError = [], typescriptOutput = [], interfaceName_ref = ''R'',
            copied = False, options = ?o\<rparr>"
  let ?s2 = "\<lparr>jsonInput = ''[]'', jsonError = ''Invalid JSON'', typescriptOutput = ''interface A {}'',
              interfaceName_ref = ''Other'', copied = True, options = ?o\<rparr>"
  let ?out = "''interface R {\<newline>  a: null;\<newline>}''"
  have h1: "options ?s1 = options ?s2" by simp
  have h2: "fst (convertJsonToTypeScript_call 5 ?s1 (JObject [(''a'', JNull)]) ''R'') = Inr ?out"
    by code_simp
  have h3: "fst (convertJsonToTypeScript_call 7 ?s2 (JObject [(''a'', JNull)]) ''R'') = Inr ?out"
    by code_simp
  show ?thesis using convert_twice_same_output[OF h1 h2 h3] h1 h2 h3 by blast
qed

section \<open>Enum detection\<close>

text \<open>
  Claim C5. For \<^verbatim>\<open>{"roles": ["admin","user","admin"]}\<close>, the root name \<^verbatim>\<open>RootObject\<close>
  and \<^verbatim>\<open>detectEnums\<close> true, whatever the other three flags are: the walk registers the
  enum \<^verbatim>\<open>RootObjectRolesEnum\<close> with the two members \<^verbatim>\<open>admin\<close> and \<^verbatim>\<open>user\<close>, in this
  order, and the type of the property \<^verbatim>\<open>roles\<close> is that name; the output holds the
  enum block and the interface that refers to it. The name is the sanitized root name,
  then the capitalized property name, then \<^verbatim>\<open>Enum\<close>.
\<close>

theorem enum_detection_example:
  "generateTypeDefinition
     \<lparr>detectEnums = True, camelCase = c, markOptional = m, strictNullChecks = s\<rparr>
     (JObject [(''roles'', JArray [JString ''admin'', JString ''user'', JString ''admin''])])
     ''RootObject'' empty_registries
   = (''RootObject'',
      \<lparr>interfaces = [(''RootObject'', [(''roles'', ''RootObjectRolesEnum'')])],
       enumTypes = [(''RootObjectRolesEnum'', [''admin'', ''user''])]\<rparr>)
   \<and> convertJsonToTypeScript
     \<lparr>detectEnums = True, camelCase = c, markOptional = m, strictNullChecks = s\<rparr>
     (JObject [(''roles'', JArray [JString ''admin'', JString ''user'', JString ''admin''])])
     ''RootObject''
   = ''enum RootObjectRolesEnum {\<newline>''
     @ ''  admin = '' @ [CHR 0x22] @ ''admin'' @ [CHR 0x22] @ '',\<newline>''
     @ ''  user = '' @ [CHR 0x22] @ ''user'' @ [CHR 0x22] @ ''\<newline>''
     @ ''}\<newline>\<newline>''
     @ ''interface RootObject {\<newline>''
     @ ''  roles'' @ (if m then ''?'' else []) @ '': RootObjectRolesEnum;\<newline>''
     @ ''}''
   \<and> ''RootObjectRolesEnum''
     = filter is_word ''RootObject'' @ capitalizeFirstLetter ''roles'' @ ''Enum''"
  by (induct c; induct m; induct s; code_simp)

section \<open>The generic rule for arrays\<close>

text \<open>
  Claim C6. For a non-empty array that is not taken as an enum, every element is walked
  under the name \<^verbatim>\<open><Name>Item\<close>. If all the element types are the same text, the type
  of the array is that text followed by \<^verbatim>\<open>[]\<close>; otherwise it is the union, in
  parentheses and followed by \<^verbatim>\<open>[]\<close>, of the element types without duplicates, each
  at the place of its first occurrence.
\<close>

theorem generic_array_type:
  assumes "items \<noteq> []" and "\<not> (detectEnums opts \<and> list_all is_string items)"
  shows "fst (generateTypeDefinition opts (JArray items) name rs)
         = (if \<forall>t \<in> set (map (\<lambda>item. fst (generateTypeDefinition opts item (name @ ''Item'') rs0)) items).
                  t = hd (map (\<lambda>item. fst (generateTypeDefinition opts item (name @ ''Item'') rs0)) items)
            then hd (map (\<lambda>item. fst (generateTypeDefinition opts item (name @ ''Item'') rs0)) items) @ ''[]''
            else ''('' @ join '' | ''
                    (new_Set (map (\<lambda>item. fst (generateTypeDefinition opts item (name @ ''Item'') rs0)) items))
                 @ '')[]'')
       \<and> distinct (new_Set (map (\<lambda>item. fst (generateTypeDefinition opts item (name @ ''Item'') rs0)) items))
       \<and> set (new_Set (map (\<lambda>item. fst (generateTypeDefinition opts item (name @ ''Item'') rs0)) items))
         = set (map (\<lambda>item. fst (generateTypeDefinition opts item (name @ ''Item'') rs0)) items)
       \<and> new_Set (map (\<lambda>item. fst (generateTypeDefinition opts item (name @ ''Item'') rs0)) items)
         = rev (remdups (rev (map (\<lambda>item. fst (generateTypeDefinition opts item (name @ ''Item'') rs0)) items)))"
proof -
  let ?ts = "map (\<lambda>item. fst (generateTypeDefinition opts item (name @ ''Item'') rs0)) items"
  have ts: "fst (array_items opts items (name @ ''Item'') rs) = ?ts"
    by (rule item_types_map)
  have ne: "?ts \<noteq> []" using assms(1) by simp
  have one: "length (new_Set ?ts) = 1 \<longleftrightarrow> (\<forall>t\<in>set ?ts. t = hd ?ts)"
    using ne by (simp only: new_Set_size_one) simp
  have "fst (generateTypeDefinition opts (JArray items) name rs) = sequence_type ?ts"
    by (simp only: gen_array_generic[OF assms] fst_conv ts)
  also have "\<dots> = (if \<forall>t\<in>set ?ts. t = hd ?ts then hd ?ts @ ''[]''
                   else ''('' @ join '' | '' (new_Set ?ts) @ '')[]'')"
    unfolding sequence_type_def one ..
  finally show ?thesis
    using distinct_new_Set[of ?ts] set_new_Set[of ?ts] new_Set_first_seen[of ?ts] by blast
qed

text \<open>Claim C6 at the array \<^verbatim>\<open>[1, "a", 2]\<close>: a union of exactly two members.\<close>

theorem generic_array_type_witness:
  "[JNumber 1, JString ''a'', JNumber 2] \<noteq> []
   \<and> \<not> (detectEnums \<lparr>detectEnums = True, camelCase = False, markOptional = False, strictNullChecks = True\<rparr>
         \<and> list_all is_string [JNumber 1, JString ''a'', JNumber 2])
   \<and> fst (generateTypeDefinition
        \<lparr>detectEnums = True, camelCase = False, markOptional = False, strictNullChecks = True\<rparr>
        (JArray [JNumber 1, JString ''a'', JNumber 2]) ''R'' empty_registries)
     = ''(number | string)[]''"
  using generic_array_type
    [of "[JNumber 1, JString ''a'', JNumber 2]"
        "\<lparr>detectEnums = True, camelCase = False, markOptional = False, strictNullChecks = True\<rparr>"
        "''R''" empty_registries empty_registries]
  by (simp add: new_Set_def set_add_def)

text \<open>
  Claim C7. When \<^verbatim>\<open>detectEnums\<close> is false, every non-empty array of strings gets the
  type \<^verbatim>\<open>string[]\<close> from the generic rule; the walk of any value registers no enum, and
  the output consists of the interface blocks alone. For \<^verbatim>\<open>{"roles": ["admin","user","admin"]}\<close>
  the output is the single interface whose property \<^verbatim>\<open>roles\<close> has the type \<^verbatim>\<open>string[]\<close>.
\<close>

theorem string_arrays_fall_through:
  assumes "\<not> detectEnums opts"
  shows "(items \<noteq> [] \<and> list_all is_string items \<longrightarrow>
            fst (generateTypeDefinition opts (JArray items) name rs) = ''string[]'')
       \<and> enumTypes (snd (generateTypeDefinition opts json rootName empty_registries)) = []
       \<and> convertJsonToTypeScript opts json rootName
         = trim (concat (map (render_interface opts)
             (interfaces (snd (generateTypeDefinition opts json rootName empty_registries)))))
       \<and> convertJsonToTypeScript
           \<lparr>detectEnums = False, camelCase = c, markOptional = m, strictNullChecks = s\<rparr>
           (JObject [(''roles'', JArray [JString ''admin'', JString ''user'', JString ''admin''])])
           ''RootObject''
         = ''interface RootObject {\<newline>''
           @ ''  roles'' @ (if m then ''?'' else []) @ '': string[];\<newline>''
           @ ''}''"
proof (intro conjI impI)
  assume a: "items \<noteq> [] \<and> list_all is_string items"
  then have g: "\<not> (detectEnums opts \<and> list_all is_string items)" using assms by simp
  from a have n: "0 < length items" by simp
  then have "new_Set (replicate (length items) ''string'') = [''string'']"
    by (rule new_Set_replicate)
  moreover have "hd (replicate (length items) ''string'') = ''string''"
    using n by (cases items) simp_all
  ultimately have "sequence_type (replicate (length items) ''string'') = ''string[]''"
    by (simp add: sequence_type_def)
  then show "fst (generateTypeDefinition opts (JArray items) name rs) = ''string[]''"
    using a by (simp only: gen_array_generic[OF conjunct1[OF a] g]
                  string_array_items[OF conjunct2[OF a]] fst_conv)
next
  show e: "enumTypes (snd (generateTypeDefinition opts json rootName empty_registries)) = []"
    by (simp add: walk_registrations enumTypes_foldl no_enum_registrations(1)[OF assms]
          empty_registries_def)
next
  show "convertJsonToTypeScript opts json rootName
         = trim (concat (map (render_interface opts)
             (interfaces (snd (generateTypeDefinition opts json rootName empty_registries)))))"
    using assms by (simp add: convertJsonToTypeScript_def render_output_def case_prod_beta)
next
  show "convertJsonToTypeScript
           \<lparr>detectEnums = False, camelCase = c, markOptional = m, strictNullChecks = s\<rparr>
           (JObject [(''roles'', JArray [JString ''admin'', JString ''user'', JString ''admin''])])
           ''RootObject''
         = ''interface RootObject {\<newline>''
           @ ''  roles'' @ (if m then ''?'' else []) @ '': string[];\<newline>''
           @ ''}''"
    by (induct c; induct m; induct s; code_simp)
qed

text \<open>Claim C7 at the array \<^verbatim>\<open>["x","y","x"]\<close> and at the object of the claim.\<close>

theorem string_arrays_fall_through_witness:
  "\<not> detectEnums \<lparr>detectEnums = False, camelCase = False, markOptional = False, strictNullChecks = True\<rparr>
   \<and> [JString ''x'', JString ''y'', JString ''x''] \<noteq> []
   \<and> list_all is_string [JString ''x'', JString ''y'', JString ''x'']
   \<and> fst (generateTypeDefinition
        \<lparr>detectEnums = False, camelCase = False, markOptional = False, strictNullChecks = True\<rparr>
        (JArray [JString ''x'', JString ''y'', JString ''x'']) ''Tags'' empty_registries)
     = ''string[]''
   \<and> convertJsonToTypeScript
        \<lparr>detectEnums = False, camelCase = False, markOptional = False, strictNullChecks = True\<rparr>
        (JObject [(''roles'', JArray [JString ''admin'', JString ''user'', JString ''admin''])])
        ''RootObject''
     = ''interface RootObject {\<newline>  roles: string[];\<newline>}''"
  using string_arrays_fall_through
    [of "\<lparr>detectEnums = False, camelCase = False, markOptional = False, strictNullChecks = True\<rparr>"
        "[JString ''x'', JString ''y'', JString ''x'']" "''Tags''" empty_registries
        JNull "''R''" False False True]
  by simp

section \<open>Records of the same name\<close>

text \<open>
  Claim C8, as stated, at a concrete input: the root object \<^verbatim>\<open>{"$": {"x": 1}}\<close> under the
  name \<^verbatim>\<open>R\<close>. The nested object is walked under the name \<^verbatim>\<open>R$\<close>, which is sanitized
  to \<^verbatim>\<open>R\<close>. The walk visits the root first and the nested object last, yet the one
  block \<^verbatim>\<open>interface R\<close> carries the property of the root, not that of the nested object.
\<close>

theorem ancestor_overwrites_nested_record:
  "map_of (interfaces (snd (generateTypeDefinition
      \<lparr>detectEnums = True, camelCase = False, markOptional = False, strictNullChecks = True\<rparr>
      (JObject [(''$'', JObject [(''x'', JNumber 1)])]) ''R'' empty_registries))) ''R''
     = Some [(''$'', ''R'')]
   \<and> spec_discovered_records
      \<lparr>detectEnums = True, camelCase = False, markOptional = False, strictNullChecks = True\<rparr>
      (JObject [(''$'', JObject [(''x'', JNumber 1)])]) ''R''
     = [(''R'', [(''$'', ''R'')]), (''R'', [(''x'', ''number'')])]
   \<and> convertJsonToTypeScript
      \<lparr>detectEnums = True, camelCase = False, markOptional = False, strictNullChecks = True\<rparr>
      (JObject [(''$'', JObject [(''x'', JNumber 1)])]) ''R''
     = ''interface R {\<newline>  $: R;\<newline>}''"
  by code_simp

text \<open>
  Claim C8, amended. The record registry holds every name once, at the place of its first
  registration, and under each name the properties of the last registration made under
  it; the output has one interface block for each name, in that order and with those
  properties. The registration of an object is
  made after those of the objects nested in it, and the registrations of an entry or an
  item are made after those of the entries or items before it. So of two objects of the
  same record name the one registered later is rendered: the later-visited one when
  neither contains the other, as for the keys \<^verbatim>\<open>a\<close> and \<^verbatim>\<open>a!\<close> below (with and without
  the key \<^verbatim>\<open>b\<close> between them), and the containing one otherwise.
\<close>

theorem last_registration_wins:
  "distinct (map fst (interfaces (snd (generateTypeDefinition opts json rootName empty_registries))))
   \<and> map_of (interfaces (snd (generateTypeDefinition opts json rootName empty_registries)))
     = map_of (rev (interface_writes (registrations opts json rootName)))
   \<and> map fst (interfaces (snd (generateTypeDefinition opts json rootName empty_registries)))
     = new_Set (map fst (interface_writes (registrations opts json rootName)))
   \<and> interfaces (snd (generateTypeDefinition opts json rootName empty_registries))
     = map (\<lambda>n. (n, the (map_of (rev (interface_writes (registrations opts json rootName))) n)))
         (new_Set (map fst (interface_writes (registrations opts json rootName))))
   \<and> convertJsonToTypeScript opts json rootName
     = rev (dropWhile is_space (rev
         ((if detectEnums opts
           then concat (map render_enum
                  (enumTypes (snd (generateTypeDefinition opts json rootName empty_registries))))
           else [])
          @ concat (map (\<lambda>n. render_interface opts
                      (n, the (map_of (rev (interface_writes (registrations opts json rootName))) n)))
              (new_Set (map fst (interface_writes (registrations opts json rootName))))))))
   \<and> interface_writes (registrations opts (JObject entries) name)
     = interface_writes (entry_registrations opts entries (filter is_word name))
       @ [(filter is_word name,
           fst (object_entries opts entries (filter is_word name) [] empty_registries))]
   \<and> entry_registrations opts (es @ fs) interfaceName
     = entry_registrations opts es interfaceName @ entry_registrations opts fs interfaceName
   \<and> item_registrations opts (xs @ ys) itemName
     = item_registrations opts xs itemName @ item_registrations opts ys itemName
   \<and> convertJsonToTypeScript
      \<lparr>detectEnums = True, camelCase = False, markOptional = False, strictNullChecks = True\<rparr>
      (JObject [(''a'', JObject [(''x'', JNumber 1)]), (''a!'', JObject [(''y'', JString ''s'')])])
      ''R''
     = ''interface RA {\<newline>  y: string;\<newline>}\<newline>\<newline>''
       @ ''interface R {\<newline>  a: RA;\<newline>  '' @ [CHR 0x27] @ ''a!'' @ [CHR 0x27] @ '': RA;\<newline>}''
   \<and> convertJsonToTypeScript
      \<lparr>detectEnums = True, camelCase = False, markOptional = False, strictNullChecks = True\<rparr>
      (JObject [(''a'', JObject [(''x'', JNumber 1)]), (''b'', JObject []),
                (''a!'', JObject [(''y'', JString ''s'')])])
      ''R''
     = ''interface RA {\<newline>  y: string;\<newline>}\<newline>\<newline>''
       @ ''interface RB {\<newline>}\<newline>\<newline>''
       @ ''interface R {\<newline>  a: RA;\<newline>  b: RB;\<newline>  ''
       @ [CHR 0x27] @ ''a!'' @ [CHR 0x27] @ '': RA;\<newline>}''"
proof (intro conjI)
  show "distinct (map fst (interfaces (snd (generateTypeDefinition opts json rootName empty_registries))))"
    by (simp add: walk_registrations interfaces_foldl empty_registries_def distinct_keys_foldl)
  show "map_of (interfaces (snd (generateTypeDefinition opts json rootName empty_registries)))
     = map_of (rev (interface_writes (registrations opts json rootName)))"
    by (simp add: walk_registrations interfaces_foldl empty_registries_def map_of_foldl)
  show "map fst (interfaces (snd (generateTypeDefinition opts json rootName empty_registries)))
     = new_Set (map fst (interface_writes (registrations opts json rootName)))"
    by (simp add: walk_registrations interfaces_foldl empty_registries_def keys_foldl_empty)
  show "interfaces (snd (generateTypeDefinition opts json rootName empty_registries))
     = map (\<lambda>n. (n, the (map_of (rev (interface_writes (registrations opts json rootName))) n)))
         (new_Set (map fst (interface_writes (registrations opts json rootName))))"
    by (rule interfaces_after_walk)
  have "convertJsonToTypeScript opts json rootName
     = rev (dropWhile is_space (rev
         ((if detectEnums opts
           then concat (map render_enum
                  (enumTypes (snd (generateTypeDefinition opts json rootName empty_registries))))
           else [])
          @ concat (map (render_interface opts)
              (interfaces (snd (generateTypeDefinition opts json rootName empty_registries)))))))"
    unfolding convertJsonToTypeScript_def case_prod_beta trim_render_output
    by (simp only: render_output_def)
  then show "convertJsonToTypeScript opts json rootName
     = rev (dropWhile is_space (rev
         ((if detectEnums opts
           then concat (map render_enum
                  (enumTypes (snd (generateTypeDefinition opts json rootName empty_registries))))
           else [])
          @ concat (map (\<lambda>n. render_interface opts
                      (n, the (map_of (rev (interface_writes (registrations opts json rootName))) n)))
              (new_Set (map fst (interface_writes (registrations opts json rootName))))))))"
    by (simp only: interfaces_after_walk map_map comp_def)
  show "interface_writes (registrations opts (JObject entries) name)
     = interface_writes (entry_registrations opts entries (filter is_word name))
       @ [(filter is_word name,
           fst (object_entries opts entries (filter is_word name) [] empty_registries))]"
    by (simp add: interface_writes_append)
  show "entry_registrations opts (es @ fs) interfaceName
     = entry_registrations opts es interfaceName @ entry_registrations opts fs interfaceName"
    by (rule entry_registrations_append)
  show "item_registrations opts (xs @ ys) itemName
     = item_registrations opts xs itemName @ item_registrations opts ys itemName"
    by (rule item_registrations_append)
  show "convertJsonToTypeScript
      \<lparr>detectEnums = True, camelCase = False, markOptional = False, strictNullChecks = True\<rparr>
      (JObject [(''a'', JObject [(''x'', JNumber 1)]), (''a!'', JObject [(''y'', JString ''s'')])])
      ''R''
     = ''interface RA {\<newline>  y: string;\<newline>}\<newline>\<newline>''
       @ ''interface R {\<newline>  a: RA;\<newline>  '' @ [CHR 0x27] @ ''a!'' @ [CHR 0x27] @ '': RA;\<newline>}''"
    by code_simp
  show "convertJsonToTypeScript
      \<lparr>detectEnums = True, camelCase = False, markOptional = False, strictNullChecks = True\<rparr>
      (JObject [(''a'', JObject [(''x'', JNumber 1)]), (''b'', JObject []),
                (''a!'', JObject [(''y'', JString ''s'')])])
      ''R''
     = ''interface RA {\<newline>  y: string;\<newline>}\<newline>\<newline>''
       @ ''interface RB {\<newline>}\<newline>\<newline>''
       @ ''interface R {\<newline>  a: RA;\<newline>  b: RB;\<newline>  ''
       @ [CHR 0x27] @ ''a!'' @ [CHR 0x27] @ '': RA;\<newline>}''"
    by code_simp
qed

section \<open>Completion and the call stack\<close>

text \<open>
  Claim C9, as stated, at a concrete input: the value written as 100000 opening
  brackets, \<^verbatim>\<open>[]\<close> and 100000 closing brackets, converted on a stack that holds
  10000 nested activations of the walk. The conversion does not return a string: the
  recursion throws \<^verbatim>\<open>RangeError\<close>.
\<close>

theorem deep_nesting_raises_RangeError:
  "convertJsonToTypeScript_on_stack 10000
     \<lparr>detectEnums = True, camelCase = False, markOptional = False, strictNullChecks = True\<rparr>
     (nested_arrays 100000) ''RootObject''
   = Inl RangeError"
  by (simp only: convert_on_stack_eq walk_depth_nested_arrays) simp

text \<open>
  Claim C9, amended. For every value, root name and configuration the conversion ends.
  When the nesting that the walk descends fits the call stack, it returns a string, the
  one that the walk on an unbounded stack gives; when it does not fit, the conversion
  throws \<^verbatim>\<open>RangeError\<close> and returns nothing. No stack is large enough for every
  value: arrays nested as deep as the stack has room are too deep for it.
\<close>

theorem convert_within_stack:
  "(walk_depth opts json \<le> stack \<longrightarrow>
      convertJsonToTypeScript_on_stack stack opts json rootName
        = Inr (convertJsonToTypeScript opts json rootName))
   \<and> (stack < walk_depth opts json \<longrightarrow>
      convertJsonToTypeScript_on_stack stack opts json rootName = Inl RangeError)
   \<and> walk_depth opts (nested_arrays n) = Suc n
   \<and> convertJsonToTypeScript_on_stack stack opts (nested_arrays stack) rootName = Inl RangeError"
  by (simp add: convert_on_stack_eq walk_depth_nested_arrays)

text \<open>
  Claim C9, amended, at \<^verbatim>\<open>{"id": 1, "roles": ["admin", null]}\<close>, whose walk needs three nested
  activations: a stack with room for three returns the interface, a stack with room for
  two throws.
\<close>

theorem convert_within_stack_witness:
  "walk_depth
     \<lparr>detectEnums = True, camelCase = True, markOptional = True, strictNullChecks = True\<rparr>
     (JObject [(''id'', JNumber 1), (''roles'', JArray [JString ''admin'', JNull])]) \<le> 3
   \<and> convertJsonToTypeScript_on_stack 3
       \<lparr>detectEnums = True, camelCase = True, markOptional = True, strictNullChecks = True\<rparr>
       (JObject [(''id'', JNumber 1), (''roles'', JArray [JString ''admin'', JNull])]) ''R''
     = Inr (''interface R {\<newline>  id?: number;\<newline>  roles?: (string | null)[];\<newline>}'')
   \<and> 2 < walk_depth
     \<lparr>detectEnums = True, camelCase = True, markOptional = True, strictNullChecks = True\<rparr>
     (JObject [(''id'', JNumber 1), (''roles'', JArray [JString ''admin'', JNull])])
   \<and> convertJsonToTypeScript_on_stack 2
       \<lparr>detectEnums = True, camelCase = True, markOptional = True, strictNullChecks = True\<rparr>
       (JObject [(''id'', JNumber 1), (''roles'', JArray [JString ''admin'', JNull])]) ''R''
     = Inl RangeError"
proof -
  let ?o = "\<lparr>detectEnums = True, camelCase = True, markOptional = True, strictNullChecks = True\<rparr>"
  let ?j = "JObject [(''id'', JNumber 1), (''roles'', JArray [JString ''admin'', JNull])]"
  have d: "walk_depth ?o ?j = 3" by code_simp
  have c: "convertJsonToTypeScript ?o ?j ''R''
      = ''interface R {\<newline>  id?: number;\<newline>  roles?: (string | null)[];\<newline>}''"
    by code_simp
  show ?thesis
    using convert_within_stack[of ?o ?j 3 "''R''"] convert_within_stack[of ?o ?j 2 "''R''"] d c
    by simp
qed

section \<open>The type of the root\<close>

text \<open>
  Claim C10. The type expression that the walk returns for the root is dropped: the
  result is the trimmed rendering of the registries alone. For a root that is a
  primitive, the empty array or an array of primitives that are not strings, nothing is
  registered and the result is the empty string.
\<close>

theorem root_type_discarded:
  "convertJsonToTypeScript opts json rootName
     = trim (render_output opts (snd (generateTypeDefinition opts json rootName empty_registries)))
   \<and> (is_primitive json \<or> json = JArray []
       \<or> (\<exists>items. json = JArray items \<and> list_all (\<lambda>v. is_primitive v \<and> \<not> is_string v) items)
      \<longrightarrow> convertJsonToTypeScript opts json rootName = [])"
proof (intro conjI impI)
  show c: "convertJsonToTypeScript opts json rootName
     = trim (render_output opts (snd (generateTypeDefinition opts json rootName empty_registries)))"
    by (simp add: convertJsonToTypeScript_def case_prod_beta)
  assume a: "is_primitive json \<or> json = JArray []
       \<or> (\<exists>items. json = JArray items \<and> list_all (\<lambda>v. is_primitive v \<and> \<not> is_string v) items)"
  have "snd (generateTypeDefinition opts json rootName empty_registries) = empty_registries"
    using a
  proof (elim disjE exE conjE)
    assume "is_primitive json"
    then show ?thesis by (rule primitive_walk)
  next
    assume "json = JArray []"
    then show ?thesis by simp
  next
    fix items
    assume j: "json = JArray items"
      and p: "list_all (\<lambda>v. is_primitive v \<and> \<not> is_string v) items"
    show ?thesis
    proof (cases "items = []")
      case True
      with j show ?thesis by simp
    next
      case False
      with p have ns: "\<not> list_all is_string items" by (cases items) auto
      from p have "list_all is_primitive items" by (simp add: list_all_iff)
      then have "snd (array_items opts items (rootName @ ''Item'') empty_registries) = empty_registries"
        by (rule primitive_array_items)
      with False ns j show ?thesis by (simp add: gen_array_generic del: generateTypeDefinition.simps)
    qed
  qed
  then show "convertJsonToTypeScript opts json rootName = []"
    by (simp only: c render_output_empty trim_empty)
qed

text \<open>Claim C10 at the string \<^verbatim>\<open>"hello"\<close> and at the array \<^verbatim>\<open>[1, true, null]\<close>.\<close>

theorem root_type_discarded_witness:
  "(is_primitive (JString ''hello'') \<or> JString ''hello'' = JArray []
     \<or> (\<exists>items. JString ''hello'' = JArray items
           \<and> list_all (\<lambda>v. is_primitive v \<and> \<not> is_string v) items))
   \<and> convertJsonToTypeScript
        \<lparr>detectEnums = True, camelCase = False, markOptional = False, strictNullChecks = True\<rparr>
        (JString ''hello'') ''R'' = []
   \<and> list_all (\<lambda>v. is_primitive v \<and> \<not> is_string v) [JNumber 1, JBoolean True, JNull]
   \<and> convertJsonToTypeScript
        \<lparr>detectEnums = True, camelCase = False, markOptional = False, strictNullChecks = True\<rparr>
        (JArray [JNumber 1, JBoolean True, JNull]) ''R'' = []"
  using root_type_discarded
    [of "\<lparr>detectEnums = True, camelCase = False, markOptional = False, strictNullChecks = True\<rparr>"
        "JString ''hello''" "''R''", THEN conjunct2]
    root_type_discarded
    [of "\<lparr>detectEnums = True, camelCase = False, markOptional = False, strictNullChecks = True\<rparr>"
        "JArray [JNumber 1, JBoolean True, JNull]" "''R''", THEN conjunct2]
  by simp

end
